theory Spec2Isabelle
  imports Complex_Main "HOL-Library.Multiset"
begin

unbundle bit_operations_syntax

section \<open>Messages, tool calls and tools\<close>

text \<open>
  The classes \<^verbatim>\<open>ToolCall\<close>, \<^verbatim>\<open>ToolCallFunction\<close> and \<^verbatim>\<open>ToolRequestMessage\<close> are
  declared in \<^verbatim>\<open>aviary/tools.py\<close>, which is not among the sources; their fields here
  are the ones \<^verbatim>\<open>aviary/env.py\<close> and \<^verbatim>\<open>tests/test_tools.py\<close> read and write. A Python
  \<^verbatim>\<open>dict[str, Any]\<close> is an association list from keys to values of an arbitrary
  type \<open>'a\<close>. The fields \<^verbatim>\<open>ToolCall.id\<close> and \<^verbatim>\<open>ToolCall.function\<close> are
  written \<open>call_id\<close> and \<open>call_function\<close>.
\<close>

type_synonym 'a py_dict = "(string \<times> 'a) list"

record 'a ToolCallFunction =
  name :: string
  arguments :: "'a py_dict"

record 'a ToolCall =
  call_id :: string
  call_function :: "'a ToolCallFunction"

record ('a, 'fc) ToolRequestMessage =
  role :: string
  content :: "string option"
  function_call :: 'fc
  tool_calls :: "'a ToolCall list"

text \<open>
  Modelled from the spec: the class \<^verbatim>\<open>ToolResponseMessage\<close> is declared in
  \<^verbatim>\<open>aviary/tools.py\<close>, which is not among the sources. The glossary of the
  specification says of a tool response that it is ``the result of executing a tool
  call, paired back to its originating request by identifier'': a response holds the
  identifier of a call and a content.
\<close>

record ToolResponseMessage =
  tool_call_id :: string
  response_content :: string

text \<open>
  Modelled from the spec: the class method \<^verbatim>\<open>ToolResponseMessage.from_call\<close> is
  defined in \<^verbatim>\<open>aviary/tools.py\<close>, which is not among the sources. By the glossary a
  response is paired to its originating request by identifier: the response made from
  a call carries the identifier of the call and the content it is given.
\<close>

definition from_call :: "'a ToolCall \<Rightarrow> string \<Rightarrow> ToolResponseMessage" where
  "from_call tool_call s_content =
     \<lparr>tool_call_id = call_id tool_call, response_content = s_content\<rparr>"

section \<open>Python values, exceptions and callables\<close>

text \<open>
  An exception is the name of its class, the text \<^verbatim>\<open>str(exc)\<close> gives and whether it
  is an instance of \<^verbatim>\<open>Exception\<close> (\<^verbatim>\<open>KeyboardInterrupt\<close>, \<^verbatim>\<open>SystemExit\<close> and
  \<^verbatim>\<open>asyncio.CancelledError\<close> derive from \<^verbatim>\<open>BaseException\<close> only, and an
  \<^verbatim>\<open>except Exception\<close> clause lets them pass). Exception objects are truthy, as
  instances of the built-in exception classes are.
\<close>

datatype py_exception =
  PyException (exc_class: string) (exc_str: string) (isinstance_Exception: bool)

definition ValueError :: "string \<Rightarrow> py_exception" where
  "ValueError msg = PyException ''ValueError'' msg True"

definition TypeError :: "string \<Rightarrow> py_exception" where
  "TypeError msg = PyException ''TypeError'' msg True"

text \<open>
  What a tool function returns: a \<^verbatim>\<open>str\<close>, a pydantic \<^verbatim>\<open>BaseModel\<close>,
  \<^verbatim>\<open>None\<close>, an awaitable (the coroutine object an \<^verbatim>\<open>async def\<close> function returns
  when called; awaiting it raises or gives a value) or any other object.
\<close>

datatype ('m, 'o) py_value =
    Str string
  | BaseModel 'm
  | NoneValue
  | Other 'o
  | Awaitable "py_exception + ('m, 'o) py_value"

text \<open>
  The library functions \<^verbatim>\<open>_exec_tool_call\<close> calls on a returned value:
  \<^verbatim>\<open>json.dumps\<close>, pydantic's \<^verbatim>\<open>model_dump_json(exclude_none=True, by_alias=True)\<close>,
  and \<^verbatim>\<open>type(v).__name__\<close>, which CPython prints when a value that is not awaitable is
  awaited. Each of the first two may raise.
\<close>

record ('m, 'o) py_lib =
  json_dumps :: "('m, 'o) py_value \<Rightarrow> py_exception + string"
  model_dump_json :: "'m \<Rightarrow> py_exception + string"
  type_name :: "('m, 'o) py_value \<Rightarrow> string"

text \<open>
  What \<^verbatim>\<open>is_coroutine_callable\<close> can see of an object: a \<^verbatim>\<open>FunctionType\<close> or
  \<^verbatim>\<open>MethodType\<close> with the \<^verbatim>\<open>co_flags\<close> of its code object, a callable whose
  \<^verbatim>\<open>__call__\<close> is such a function or method (with the flags of that one), or anything
  else (a built-in, a \<^verbatim>\<open>functools.partial\<close>, an object that is not callable).
\<close>

datatype py_callable_kind =
    FunctionOrMethod int
  | CallableInstance int
  | OtherObject

text \<open>
  \<^verbatim>\<open>isinstance(x, int)\<close> for an \<open>x\<close> that is the result of \<^verbatim>\<open>&\<close> on two Python
  integers: such a value is always an \<^verbatim>\<open>int\<close>.
\<close>

definition isinstance_int :: "int \<Rightarrow> bool" where
  "isinstance_int x = True"

fun is_coroutine_callable :: "py_callable_kind \<Rightarrow> bool" where
  "is_coroutine_callable (FunctionOrMethod co_flags) = isinstance_int (co_flags AND 0x80)"
| "is_coroutine_callable (CallableInstance co_flags) = isinstance_int (co_flags AND 0x80)"
| "is_coroutine_callable OtherObject = False"

text \<open>
  What the comments of \<^verbatim>\<open>is_coroutine_callable\<close> say it checks: the object (or its
  \<^verbatim>\<open>__call__\<close>) is a coroutine function, that is, the flag \<^verbatim>\<open>CO_COROUTINE = 0x80\<close>
  is set in its code object.
\<close>

fun is_coroutine_function :: "py_callable_kind \<Rightarrow> bool" where
  "is_coroutine_function (FunctionOrMethod co_flags) = (co_flags AND 0x80 \<noteq> 0)"
| "is_coroutine_function (CallableInstance co_flags) = (co_flags AND 0x80 \<noteq> 0)"
| "is_coroutine_function OtherObject = False"

text \<open>
  A tool function \<^verbatim>\<open>tool._tool_fn\<close>: its kind, whether \<^verbatim>\<open>state\<close> is a parameter
  of its signature, whether it has the attribute \<^verbatim>\<open>requires_state\<close>, and what
  calling it with \<^verbatim>\<open>**arguments, **kwargs\<close> does: raise, or return a value. A tool
  function is a function of the two dictionaries: what it returns does not depend on
  the calls made before it or beside it. Its signature can be inspected, as that of a
  Python function can.
\<close>

record ('a, 'm, 'o) tool_function =
  kind :: py_callable_kind
  signature_has_state :: bool
  has_requires_state :: bool
  call :: "'a py_dict \<Rightarrow> 'a py_dict \<Rightarrow> py_exception + ('m, 'o) py_value"

text \<open>
  A \<^verbatim>\<open>Tool\<close> (declared in \<^verbatim>\<open>aviary/tools.py\<close>) as \<^verbatim>\<open>aviary/env.py\<close> reads it:
  its name \<^verbatim>\<open>tool.info.name\<close> and its function \<^verbatim>\<open>tool._tool_fn\<close>. Of an
  \<^verbatim>\<open>Environment\<close> the methods below read the list \<^verbatim>\<open>self.tools\<close>.
\<close>

record ('a, 'm, 'o) Tool =
  info_name :: string
  tool_fn :: "('a, 'm, 'o) tool_function"

record ('a, 'm, 'o) Environment =
  tools :: "('a, 'm, 'o) Tool list"

section \<open>Splitting the tool calls of a message\<close>

text \<open>\<^verbatim>\<open>next((t for t in self.tools if t.info.name == n), None)\<close>: the first match.\<close>

definition find_tool :: "('a, 'm, 'o) Environment \<Rightarrow> string \<Rightarrow> ('a, 'm, 'o) Tool option" where
  "find_tool env n = find (\<lambda>t. info_name t = n) (tools env)"

fun filter_loop ::
  "('a, 'm, 'o) Environment \<Rightarrow> 'a ToolCall list \<Rightarrow> 'a ToolCall list \<Rightarrow> 'a ToolCall list
    \<Rightarrow> 'a ToolCall list \<times> 'a ToolCall list" where
  "filter_loop env [] valid invalid = (valid, invalid)"
| "filter_loop env (tool_call # rest) valid invalid =
     (case find_tool env (name (call_function tool_call)) of
        Some tool_used_in_tool_call \<Rightarrow> filter_loop env rest (valid @ [tool_call]) invalid
      | None \<Rightarrow> filter_loop env rest valid (invalid @ [tool_call]))"

definition filter_invalid_tool_calls ::
  "('a, 'm, 'o) Environment \<Rightarrow> ('a, 'fc) ToolRequestMessage
    \<Rightarrow> ('a, 'fc) ToolRequestMessage \<times> ('a, 'fc) ToolRequestMessage" where
  "filter_invalid_tool_calls env message =
     (let (valid, invalid) = filter_loop env (tool_calls message) [] [];
          mk = (\<lambda>x. \<lparr>role = role message, content = content message,
                       function_call = function_call message, tool_calls = x\<rparr>)
      in (mk valid, mk invalid))"

section \<open>Executing tool calls\<close>

text \<open>
  \<^verbatim>\<open>await v\<close> on the result of a call: an exception raised by the call propagates, an
  awaitable is run to its outcome, and any other value raises the \<^verbatim>\<open>TypeError\<close> of
  CPython (``object str can't be used in 'await' expression'', in the wording of
  CPython 3.11 to 3.13).
\<close>

fun py_await ::
  "('m, 'o) py_lib \<Rightarrow> py_exception + ('m, 'o) py_value \<Rightarrow> py_exception + ('m, 'o) py_value" where
  "py_await lib (Inl exc) = Inl exc"
| "py_await lib (Inr (Awaitable outcome)) = outcome"
| "py_await lib (Inr v) =
     Inl (TypeError (''object '' @ type_name lib v @ '' can't be used in 'await' expression''))"

text \<open>
  \<^verbatim>\<open>await asyncio.to_thread(f, **kwargs)\<close>: the function runs on a worker thread and
  what it raises or returns is handed back as it is.
\<close>

definition to_thread ::
  "py_exception + ('m, 'o) py_value \<Rightarrow> py_exception + ('m, 'o) py_value" where
  "to_thread outcome = outcome"

text \<open>The body of the inner \<^verbatim>\<open>try\<close> of \<^verbatim>\<open>_exec_tool_call\<close>: lines 194 to 205.\<close>

definition run_tool_fn ::
  "('m, 'o) py_lib \<Rightarrow> ('a, 'm, 'o) tool_function \<Rightarrow> 'a py_dict \<Rightarrow> 'a py_dict
    \<Rightarrow> py_exception + ('m, 'o) py_value" where
  "run_tool_fn lib fn args filtered_kwargs =
     (if is_coroutine_callable (kind fn)
      then py_await lib (call fn args filtered_kwargs)
      else to_thread (call fn args filtered_kwargs))"

text \<open>The serialisation of the returned value: lines 214 to 219.\<close>

fun serialize :: "('m, 'o) py_lib \<Rightarrow> ('m, 'o) py_value \<Rightarrow> py_exception + string" where
  "serialize lib (Str s) = Inr s"
| "serialize lib (BaseModel m) = model_dump_json lib m"
| "serialize lib v = json_dumps lib v"

definition logger_msg :: "('a, 'm, 'o) Tool \<Rightarrow> string" where
  "logger_msg tool = ''Failed to execute tool call for tool '' @ info_name tool"

definition filter_kwargs :: "('a, 'm, 'o) tool_function \<Rightarrow> 'a py_dict \<Rightarrow> 'a py_dict" where
  "filter_kwargs fn function_kwargs =
     (let need_to_filter =
            (''state'' \<in> fst ` set function_kwargs
             \<and> \<not> signature_has_state fn
             \<and> \<not> has_requires_state fn)
      in if need_to_filter then filter (\<lambda>(k, v). k \<noteq> ''state'') function_kwargs
         else function_kwargs)"

text \<open>
  \<^verbatim>\<open>_exec_tool_call\<close>, the closure of \<^verbatim>\<open>exec_tool_calls\<close> over \<^verbatim>\<open>self\<close>,
  \<^verbatim>\<open>handle_tool_exc\<close> and \<^verbatim>\<open>function_kwargs\<close>. \<open>Inl\<close> is the exception that leaves
  the coroutine.
\<close>

definition exec_tool_call ::
  "('m, 'o) py_lib \<Rightarrow> ('a, 'm, 'o) Environment \<Rightarrow> bool \<Rightarrow> 'a py_dict \<Rightarrow> 'a ToolCall
    \<Rightarrow> py_exception + ToolResponseMessage" where
  "exec_tool_call lib env handle_tool_exc function_kwargs tool_call =
     (case find_tool env (name (call_function tool_call)) of
        None \<Rightarrow> Inl (ValueError (name (call_function tool_call) @ '' not a valid function.''))
      | Some tool \<Rightarrow>
          (let filtered_kwargs = filter_kwargs (tool_fn tool) function_kwargs in
           case run_tool_fn lib (tool_fn tool) (arguments (call_function tool_call))
                  filtered_kwargs of
             Inl exc \<Rightarrow>
               if \<not> isinstance_Exception exc then Inl exc
               else if \<not> handle_tool_exc then Inl exc
               else Inr (from_call tool_call (logger_msg tool @ '':'' @ [CHR 0x0A] @ exc_str exc))
           | Inr content' \<Rightarrow>
               (case serialize lib content' of
                  Inl exc \<Rightarrow> Inl exc
                | Inr s_content \<Rightarrow> Inr (from_call tool_call s_content))))"

text \<open>
  \<^verbatim>\<open>[await _exec_tool_call(tool_call) for tool_call in message.tool_calls]\<close>: the calls run
  one after the other, and the first exception ends the comprehension.
\<close>

fun await_each :: "('c \<Rightarrow> py_exception + 'r) \<Rightarrow> 'c list \<Rightarrow> py_exception + 'r list" where
  "await_each f [] = Inr []"
| "await_each f (c # cs) =
     (case f c of
        Inl exc \<Rightarrow> Inl exc
      | Inr r \<Rightarrow> (case await_each f cs of Inl exc \<Rightarrow> Inl exc | Inr rs \<Rightarrow> Inr (r # rs)))"

text \<open>
  \<^verbatim>\<open>asyncio.gather(*aws)\<close> with \<^verbatim>\<open>return_exceptions=False\<close>. Every awaitable becomes a
  task; the tasks finish in an order the event loop and the worker threads decide. That
  order is the parameter \<open>sched\<close>, a list of task indices: the tasks it names finish in
  that order (an index out of range or named before is skipped), the others after them
  in the order of their creation. The first task to finish with an exception makes
  \<^verbatim>\<open>gather\<close> raise it; when all have finished without one, the result is the list of
  the results in the order of the awaitables.
\<close>

definition completion_order :: "nat list \<Rightarrow> nat \<Rightarrow> nat list" where
  "completion_order sched n =
     remdups (filter (\<lambda>i. i < n) sched) @ filter (\<lambda>i. i \<notin> set sched) [0..<n]"

fun first_exception :: "nat list \<Rightarrow> (py_exception + 'r) list \<Rightarrow> py_exception option" where
  "first_exception [] outcomes = None"
| "first_exception (i # order) outcomes =
     (case outcomes ! i of Inl exc \<Rightarrow> Some exc | Inr r \<Rightarrow> first_exception order outcomes)"

definition gather :: "nat list \<Rightarrow> (py_exception + 'r) list \<Rightarrow> py_exception + 'r list" where
  "gather sched outcomes =
     (case first_exception (completion_order sched (length outcomes)) outcomes of
        Some exc \<Rightarrow> Inl exc
      | None \<Rightarrow> Inr (List.map_filter (\<lambda>outcome. case outcome of Inl exc \<Rightarrow> None | Inr r \<Rightarrow> Some r)
                      outcomes))"

text \<open>
  \<^verbatim>\<open>Environment.exec_tool_calls\<close>. Beside the arguments of the method, \<open>lib\<close> holds
  the library functions and \<open>sched\<close> the order in which the gathered tasks finish;
  the sequential execution does not read \<open>sched\<close>.
\<close>

definition exec_tool_calls ::
  "('m, 'o) py_lib \<Rightarrow> nat list \<Rightarrow> ('a, 'm, 'o) Environment \<Rightarrow> ('a, 'fc) ToolRequestMessage
    \<Rightarrow> bool \<Rightarrow> bool \<Rightarrow> 'a py_dict \<Rightarrow> py_exception + ToolResponseMessage list" where
  "exec_tool_calls lib sched env message ordered handle_tool_exc function_kwargs =
     (if \<not> ordered
      then gather sched
             (map (exec_tool_call lib env handle_tool_exc function_kwargs) (tool_calls message))
      else await_each (exec_tool_call lib env handle_tool_exc function_kwargs)
             (tool_calls message))"

section \<open>Batches of a task dataset\<close>

text \<open>
  A \<^verbatim>\<open>TaskDataset\<close>: \<^verbatim>\<open>len(self)\<close> is a natural number, or \<open>None\<close> when
  \<^verbatim>\<open>__len__\<close> raises \<^verbatim>\<open>TypeError\<close> as the base class does; a finite dataset
  overrides \<^verbatim>\<open>get_new_env_by_idx\<close>.
\<close>

record 'e TaskDataset =
  len :: "nat option"
  get_new_env_by_idx :: "nat \<Rightarrow> 'e"

text \<open>Python's slices \<^verbatim>\<open>xs[:k]\<close> and \<^verbatim>\<open>xs[k:]\<close>; a negative \<open>k\<close> counts from the end.\<close>

definition slice_to :: "'x list \<Rightarrow> int \<Rightarrow> 'x list" where
  "slice_to xs k = (if 0 \<le> k then take (nat k) xs else take (length xs - nat (- k)) xs)"

definition slice_from :: "'x list \<Rightarrow> int \<Rightarrow> 'x list" where
  "slice_from xs k = (if 0 \<le> k then drop (nat k) xs else drop (length xs - nat (- k)) xs)"

text \<open>
  The loop \<^verbatim>\<open>while idcs:\<close> of \<^verbatim>\<open>iter_batches\<close>, as the list of all the batches the
  generator yields; \<open>None\<close> when it never stops yielding.
\<close>

partial_function (option) batches_loop ::
  "'e TaskDataset \<Rightarrow> int \<Rightarrow> nat list \<Rightarrow> 'e list list option" where
  "batches_loop ds batch_size idcs =
     (if idcs = [] then Some []
      else
        (let batch_idcs = slice_to idcs batch_size;
             idcs' = slice_from idcs batch_size
         in Option.bind (batches_loop ds batch_size idcs')
              (\<lambda>later. Some (map (get_new_env_by_idx ds) batch_idcs # later))))"

text \<open>
  \<^verbatim>\<open>iter_batches\<close>. \<open>random_shuffle\<close> is what \<^verbatim>\<open>random.shuffle\<close> makes of the list
  it is given. A dataset without a length yields batches of new environments for ever.
\<close>

definition iter_batches ::
  "(nat list \<Rightarrow> nat list) \<Rightarrow> 'e TaskDataset \<Rightarrow> int \<Rightarrow> bool \<Rightarrow> 'e list list option" where
  "iter_batches random_shuffle ds batch_size shuffle =
     (case len ds of
        None \<Rightarrow> None
      | Some n \<Rightarrow>
          (let idcs = [0..<n];
               idcs = (if shuffle then random_shuffle idcs else idcs)
           in batches_loop ds batch_size idcs))"

section \<open>Partial formatting\<close>

text \<open>
  \<^verbatim>\<open>str.format\<close> as CPython implements it. A format string is read from left to
  right as literal text and replacement fields; a field is its field name, its
  conversion and its format spec. A malformed string raises \<^verbatim>\<open>ValueError\<close> where the
  reading reaches the defect, so the defect is the last segment.
\<close>

record field =
  field_name :: string
  conversion :: "char option"
  format_spec :: string

datatype segment = Literal string | Field field | SyntaxError string

definition emit :: "string \<Rightarrow> segment list \<Rightarrow> segment list" where
  "emit literal segs = (if literal = [] then segs else Literal literal # segs)"

fun scan_literal :: "string \<Rightarrow> string \<Rightarrow> segment list"
  and scan_field_name :: "string \<Rightarrow> string \<Rightarrow> segment list"
  and scan_bracket :: "string \<Rightarrow> string \<Rightarrow> segment list"
  and scan_conversion :: "string \<Rightarrow> string \<Rightarrow> segment list"
  and scan_format_spec :: "string \<Rightarrow> char option \<Rightarrow> nat \<Rightarrow> string \<Rightarrow> string \<Rightarrow> segment list"
where
  "scan_literal literal [] = emit literal []"
| "scan_literal literal (c # cs) =
     (if c = CHR ''{'' then
        (case cs of
           [] \<Rightarrow> emit literal [SyntaxError ''Single '{' encountered in format string'']
         | c' # cs' \<Rightarrow>
             if c' = CHR ''{'' then scan_literal (literal @ [c]) cs'
             else emit literal (scan_field_name [] cs))
      else if c = CHR ''}'' then
        (case cs of
           [] \<Rightarrow> emit literal [SyntaxError ''Single '}' encountered in format string'']
         | c' # cs' \<Rightarrow>
             if c' = CHR ''}'' then scan_literal (literal @ [c]) cs'
             else emit literal [SyntaxError ''Single '}' encountered in format string''])
      else scan_literal (literal @ [c]) cs)"
| "scan_field_name fname [] = [SyntaxError ''expected '}' before end of string'']"
| "scan_field_name fname (c # cs) =
     (if c = CHR ''{'' then [SyntaxError ''unexpected '{' in field name'']
      else if c = CHR ''['' then scan_bracket (fname @ [c]) cs
      else if c = CHR ''}'' then
        Field \<lparr>field_name = fname, conversion = None, format_spec = []\<rparr> # scan_literal [] cs
      else if c = CHR '':'' then scan_format_spec fname None 1 [] cs
      else if c = CHR ''!'' then scan_conversion fname cs
      else scan_field_name (fname @ [c]) cs)"
| "scan_bracket fname [] = [SyntaxError ''expected '}' before end of string'']"
| "scan_bracket fname (c # cs) =
     (if c = CHR '']'' then scan_field_name (fname @ [c]) cs
      else scan_bracket (fname @ [c]) cs)"
| "scan_conversion fname [] =
     [SyntaxError ''end of string while looking for conversion specifier'']"
| "scan_conversion fname (conv # cs) =
     (case cs of
        [] \<Rightarrow> [SyntaxError ''unmatched '{' in format spec'']
      | c # cs' \<Rightarrow>
          if c = CHR ''}'' then
            Field \<lparr>field_name = fname, conversion = Some conv, format_spec = []\<rparr>
              # scan_literal [] cs'
          else if c \<noteq> CHR '':'' then [SyntaxError ''expected ':' after conversion specifier'']
          else scan_format_spec fname (Some conv) 1 [] cs')"
| "scan_format_spec fname conv depth spec [] = [SyntaxError ''unmatched '{' in format spec'']"
| "scan_format_spec fname conv depth spec (c # cs) =
     (if c = CHR ''{'' then scan_format_spec fname conv (depth + 1) (spec @ [c]) cs
      else if c = CHR ''}'' then
        (if depth - 1 = 0 then
           Field \<lparr>field_name = fname, conversion = conv, format_spec = spec\<rparr>
             # scan_literal [] cs
         else scan_format_spec fname conv (depth - 1) (spec @ [c]) cs)
      else scan_format_spec fname conv depth (spec @ [c]) cs)"

definition parse_format :: "string \<Rightarrow> segment list" where
  "parse_format s = scan_literal [] s"

text \<open>
  The first part of a field name, up to the first \<^verbatim>\<open>.\<close> or \<^verbatim>\<open>[\<close>, names the
  argument. \<^verbatim>\<open>get_integer\<close> reads it as a decimal index when it is made of digits.
\<close>

definition arg_name :: "field \<Rightarrow> string" where
  "arg_name f = takeWhile (\<lambda>c. c \<noteq> CHR ''.'' \<and> c \<noteq> CHR ''['') (field_name f)"

datatype integer_result = NotInteger | Integer int | TooManyDigits

definition PY_SSIZE_T_MAX :: int where
  "PY_SSIZE_T_MAX = 9223372036854775807"

definition digitval :: "char \<Rightarrow> int option" where
  "digitval c =
     (let code = (of_char c :: int)
      in if of_char CHR ''0'' \<le> code \<and> code \<le> of_char CHR ''9''
         then Some (code - of_char CHR ''0'') else None)"

fun get_integer_loop :: "int \<Rightarrow> string \<Rightarrow> integer_result" where
  "get_integer_loop accumulator [] = Integer accumulator"
| "get_integer_loop accumulator (c # cs) =
     (case digitval c of
        None \<Rightarrow> NotInteger
      | Some d \<Rightarrow>
          if accumulator > (PY_SSIZE_T_MAX - d) div 10 then TooManyDigits
          else get_integer_loop (accumulator * 10 + d) cs)"

definition get_integer :: "string \<Rightarrow> integer_result" where
  "get_integer s = (if s = [] then NotInteger else get_integer_loop 0 s)"

text \<open>
  The exceptions of \<^verbatim>\<open>str.format\<close>: the keyword argument is missing, the positional
  argument is missing, the format string is malformed, or the value raised while its
  attributes and items were looked up, it was converted or it was formatted.
\<close>

datatype format_error =
    KeyError string
  | IndexError int
  | FormatValueError string
  | FieldError py_exception

text \<open>
  \<^verbatim>\<open>value.format(**kwargs)\<close> has no positional argument: a field with an index, or an
  empty name (numbered automatically from 0), raises \<^verbatim>\<open>IndexError\<close>.
\<close>

definition get_field_object :: "'v py_dict \<Rightarrow> field \<Rightarrow> format_error + 'v" where
  "get_field_object kwargs f =
     (case get_integer (arg_name f) of
        TooManyDigits \<Rightarrow> Inl (FormatValueError ''Too many decimal digits in format string'')
      | Integer index \<Rightarrow> Inl (IndexError index)
      | NotInteger \<Rightarrow>
          if arg_name f = [] then Inl (IndexError 0)
          else (case map_of kwargs (arg_name f) of
                  None \<Rightarrow> Inl (KeyError (arg_name f))
                | Some obj \<Rightarrow> Inr obj))"

text \<open>
  \<open>render\<close> is what Python does with the looked-up object: the rest of the field name
  (attributes and items), the conversion, the expansion of a nested format spec and
  \<^verbatim>\<open>format(obj, spec)\<close>. It depends on the class of the object.
\<close>

type_synonym 'v render = "'v py_dict \<Rightarrow> 'v \<Rightarrow> field \<Rightarrow> py_exception + string"

definition output_markup :: "'v render \<Rightarrow> 'v py_dict \<Rightarrow> field \<Rightarrow> format_error + string" where
  "output_markup render kwargs f =
     (case get_field_object kwargs f of
        Inl err \<Rightarrow> Inl err
      | Inr obj \<Rightarrow>
          (case render kwargs obj f of
             Inl exc \<Rightarrow> Inl (FieldError exc)
           | Inr s \<Rightarrow> Inr s))"

fun build_string :: "'v render \<Rightarrow> 'v py_dict \<Rightarrow> segment list \<Rightarrow> format_error + string" where
  "build_string render kwargs [] = Inr []"
| "build_string render kwargs (Literal literal # segs) =
     (case build_string render kwargs segs of
        Inl err \<Rightarrow> Inl err
      | Inr s \<Rightarrow> Inr (literal @ s))"
| "build_string render kwargs (Field f # segs) =
     (case output_markup render kwargs f of
        Inl err \<Rightarrow> Inl err
      | Inr out \<Rightarrow>
          (case build_string render kwargs segs of
             Inl err \<Rightarrow> Inl err
           | Inr s \<Rightarrow> Inr (out @ s)))"
| "build_string render kwargs (SyntaxError msg # segs) = Inl (FormatValueError msg)"

definition str_format :: "'v render \<Rightarrow> string \<Rightarrow> 'v py_dict \<Rightarrow> format_error + string" where
  "str_format render s kwargs = build_string render kwargs (parse_format s)"

text \<open>\<^verbatim>\<open>contextlib.suppress(KeyError)\<close> swallows these.\<close>

fun is_KeyError :: "format_error \<Rightarrow> bool" where
  "is_KeyError (KeyError k) = True"
| "is_KeyError (FieldError exc) = (exc_class exc = ''KeyError'')"
| "is_KeyError err = False"

fun partial_format :: "'v render \<Rightarrow> string \<Rightarrow> 'v py_dict \<Rightarrow> format_error + string" where
  "partial_format render value' [] = Inr value'"
| "partial_format render value' ((template_key, template_value) # formats) =
     (case str_format render value' [(template_key, template_value)] of
        Inr formatted \<Rightarrow> partial_format render formatted formats
      | Inl err \<Rightarrow>
          if is_KeyError err then partial_format render value' formats
          else Inl err)"

text \<open>
  The replacement fields of a format string, whether the string is well formed, and
  whether a field names a keyword argument (its argument name is neither empty nor an
  index).
\<close>

fun fields_of :: "segment list \<Rightarrow> field list" where
  "fields_of [] = []"
| "fields_of (Field f # segs) = f # fields_of segs"
| "fields_of (seg # segs) = fields_of segs"

definition replacement_fields :: "string \<Rightarrow> field list" where
  "replacement_fields s = fields_of (parse_format s)"

fun is_syntax_error :: "segment \<Rightarrow> bool" where
  "is_syntax_error (SyntaxError msg) = True"
| "is_syntax_error seg = False"

definition well_formed :: "string \<Rightarrow> bool" where
  "well_formed s = list_all (\<lambda>seg. \<not> is_syntax_error seg) (parse_format s)"

definition is_keyword_field :: "field \<Rightarrow> bool" where
  "is_keyword_field f = (arg_name f \<noteq> [] \<and> get_integer (arg_name f) = NotInteger)"

section \<open>Example inputs\<close>

text \<open>
  The library on a few values: a model with no field dumps as \<^verbatim>\<open>{}\<close>,
  \<^verbatim>\<open>json.dumps\<close> of \<^verbatim>\<open>None\<close>, \<^verbatim>\<open>True\<close> and \<^verbatim>\<open>False\<close> is \<^verbatim>\<open>null\<close>,
  \<^verbatim>\<open>true\<close> and \<^verbatim>\<open>false\<close>, of a text without characters to escape the text in double
  quotes, and it raises \<^verbatim>\<open>TypeError\<close> on a model and on a coroutine.
\<close>

definition example_lib :: "(unit, bool) py_lib" where
  "example_lib =
     \<lparr>json_dumps = (\<lambda>v. case v of
          Str s \<Rightarrow> Inr ([CHR 0x22] @ s @ [CHR 0x22])
        | BaseModel m \<Rightarrow> Inl (TypeError ''Object of type BaseModel is not JSON serializable'')
        | NoneValue \<Rightarrow> Inr ''null''
        | Other b \<Rightarrow> Inr (if b then ''true'' else ''false'')
        | Awaitable outcome \<Rightarrow>
            Inl (TypeError ''Object of type coroutine is not JSON serializable'')),
      model_dump_json = (\<lambda>m. Inr ''{}''),
      type_name = (\<lambda>v. case v of
          Str s \<Rightarrow> ''str''
        | BaseModel m \<Rightarrow> ''BaseModel''
        | NoneValue \<Rightarrow> ''NoneType''
        | Other b \<Rightarrow> ''bool''
        | Awaitable outcome \<Rightarrow> ''coroutine'')\<rparr>"

text \<open>
  Four tools. \<^verbatim>\<open>get_todo_list_no_args\<close> is the synchronous function of
  \<^verbatim>\<open>tests/test_tools.py\<close> (\<^verbatim>\<open>def get_todo_list_no_args(): return "Go for a walk"\<close>,
  defined inside the test: its code flags are
  \<^verbatim>\<open>CO_OPTIMIZED | CO_NEWLOCALS | CO_NESTED = 0x13\<close>). \<^verbatim>\<open>read_book\<close> and
  \<^verbatim>\<open>boom\<close> are \<^verbatim>\<open>async def\<close> functions of a module (flags
  \<^verbatim>\<open>CO_OPTIMIZED | CO_NEWLOCALS | CO_COROUTINE = 0x83\<close>): the first returns a text,
  the second raises \<^verbatim>\<open>RuntimeError("boom")\<close>. \<^verbatim>\<open>noop\<close> is a built-in callable
  that returns \<^verbatim>\<open>None\<close>.
\<close>

definition get_todo_list_no_args :: "(string, unit, bool) Tool" where
  "get_todo_list_no_args =
     \<lparr>info_name = ''get_todo_list_no_args'',
      tool_fn = \<lparr>kind = FunctionOrMethod 0x13, signature_has_state = False,
                 has_requires_state = False,
                 call = (\<lambda>args kwargs. Inr (Str ''Go for a walk''))\<rparr>\<rparr>"

definition read_book :: "(string, unit, bool) Tool" where
  "read_book =
     \<lparr>info_name = ''read_book'',
      tool_fn = \<lparr>kind = FunctionOrMethod 0x83, signature_has_state = False,
                 has_requires_state = False,
                 call = (\<lambda>args kwargs. Inr (Awaitable (Inr (Str ''Read a book''))))\<rparr>\<rparr>"

definition boom :: "(string, unit, bool) Tool" where
  "boom =
     \<lparr>info_name = ''boom'',
      tool_fn = \<lparr>kind = FunctionOrMethod 0x83, signature_has_state = False,
                 has_requires_state = False,
                 call = (\<lambda>args kwargs.
                   Inr (Awaitable (Inl (PyException ''RuntimeError'' ''boom'' True))))\<rparr>\<rparr>"

definition noop :: "(string, unit, bool) Tool" where
  "noop =
     \<lparr>info_name = ''noop'',
      tool_fn = \<lparr>kind = OtherObject, signature_has_state = False,
                 has_requires_state = False,
                 call = (\<lambda>args kwargs. Inr NoneValue)\<rparr>\<rparr>"

definition example_env :: "(string, unit, bool) Environment" where
  "example_env = \<lparr>tools = [get_todo_list_no_args, read_book, boom, noop]\<rparr>"

definition call_of :: "string \<Rightarrow> string \<Rightarrow> string ToolCall" where
  "call_of i n = \<lparr>call_id = i, call_function = \<lparr>name = n, arguments = []\<rparr>\<rparr>"

definition request :: "string ToolCall list \<Rightarrow> (string, unit) ToolRequestMessage" where
  "request calls =
     \<lparr>role = ''assistant'', content = None, function_call = (), tool_calls = calls\<rparr>"

text \<open>
  The formatting of a Python \<^verbatim>\<open>str\<close> by the fields the examples use: with no
  attribute or item, no format spec and the conversion \<^verbatim>\<open>s\<close> or none, the result is
  the text itself. Other fields are not part of the examples.
\<close>

definition format_str_value :: "string render" where
  "format_str_value kwargs obj f =
     (if field_name f = arg_name f \<and> format_spec f = []
         \<and> (conversion f = None \<or> conversion f = Some CHR ''s'')
      then Inr obj
      else Inl (PyException ''NotImplementedError'' ''not part of the examples'' True))"

section \<open>Properties of the split into valid and invalid calls\<close>

lemma find_tool_None_iff:
  "find_tool env n = None \<longleftrightarrow> n \<notin> info_name ` set (tools env)"
  by (auto simp: find_tool_def find_None_iff)


lemma filter_loop_eq:
  "filter_loop env calls valid invalid =
     (valid @ filter (\<lambda>c. name (call_function c) \<in> info_name ` set (tools env)) calls,
      invalid @ filter (\<lambda>c. name (call_function c) \<notin> info_name ` set (tools env)) calls)"
proof (induction calls arbitrary: valid invalid)
  case Nil
  then show ?case by simp
next
  case (Cons c calls)
  show ?case
  proof (cases "find_tool env (name (call_function c))")
    case None
    then have "name (call_function c) \<notin> info_name ` set (tools env)"
      by (simp add: find_tool_None_iff)
    with None Cons show ?thesis by simp
  next
    case (Some t)
    then have "name (call_function c) \<in> info_name ` set (tools env)"
      using find_tool_None_iff [of env "name (call_function c)"] by auto
    with Some Cons show ?thesis by simp
  qed
qed

text \<open>
  C4. \<^verbatim>\<open>filter_invalid_tool_calls\<close> splits the tool calls of the message in two: the
  first message holds, in their order, the calls whose function name is the name of a
  tool of the environment, the second the others, in their order. Every occurrence of a
  call is in one of the two (the multisets add up to the input's) and no call is in
  both. The role, the content and the function call of both are the input's.
\<close>

theorem filter_invalid_tool_calls_partition:
  "tool_calls (fst (filter_invalid_tool_calls env message)) =
     filter (\<lambda>c. name (call_function c) \<in> info_name ` set (tools env)) (tool_calls message)
   \<and> tool_calls (snd (filter_invalid_tool_calls env message)) =
     filter (\<lambda>c. name (call_function c) \<notin> info_name ` set (tools env)) (tool_calls message)
   \<and> mset (tool_calls (fst (filter_invalid_tool_calls env message)))
       + mset (tool_calls (snd (filter_invalid_tool_calls env message)))
       = mset (tool_calls message)
   \<and> set (tool_calls (fst (filter_invalid_tool_calls env message)))
       \<inter> set (tool_calls (snd (filter_invalid_tool_calls env message))) = {}
   \<and> role (fst (filter_invalid_tool_calls env message)) = role message
   \<and> content (fst (filter_invalid_tool_calls env message)) = content message
   \<and> function_call (fst (filter_invalid_tool_calls env message)) = function_call message
   \<and> role (snd (filter_invalid_tool_calls env message)) = role message
   \<and> content (snd (filter_invalid_tool_calls env message)) = content message
   \<and> function_call (snd (filter_invalid_tool_calls env message)) = function_call message"
  by (auto simp: filter_invalid_tool_calls_def filter_loop_eq Let_def)

section \<open>Properties of the execution of tool calls\<close>

lemmas example_defs = example_lib_def example_env_def get_todo_list_no_args_def read_book_def
  boom_def noop_def call_of_def request_def

lemmas exec_defs = exec_tool_calls_def exec_tool_call_def find_tool_def run_tool_fn_def
  filter_kwargs_def to_thread_def from_call_def logger_msg_def isinstance_int_def
  ValueError_def TypeError_def gather_def completion_order_def

text \<open>A message with a call of a known and a call of an unknown tool, split.\<close>

lemma filter_invalid_tool_calls_example:
  "filter_invalid_tool_calls example_env
     (request [call_of ''1'' ''write_book'', call_of ''2'' ''read_book''])
   = (request [call_of ''2'' ''read_book''], request [call_of ''1'' ''write_book''])"
  by (simp add: filter_invalid_tool_calls_def example_defs find_tool_def)

subsection \<open>Sequential and concurrent execution\<close>

lemma await_each_Inr_iff: "await_each f cs = Inr rs \<longleftrightarrow> map f cs = map Inr rs"
proof (induction cs arbitrary: rs)
  case Nil
  then show ?case by auto
next
  case (Cons c cs)
  show ?case
  proof (cases "f c")
    case (Inl exc)
    then show ?thesis by (cases rs) auto
  next
    case fc: (Inr r)
    show ?thesis
    proof (cases "await_each f cs")
      case (Inl exc)
      then have "map f cs \<noteq> map Inr rs'" for rs'
        using Cons.IH [of rs'] by simp
      with fc Inl show ?thesis by (cases rs) auto
    next
      case (Inr rs')
      then have "map f cs = map Inr rs'"
        using Cons.IH [of rs'] by simp
      with fc Inr show ?thesis by (cases rs) auto
    qed
  qed
qed

lemma await_each_Inl: "await_each f cs = Inl exc \<Longrightarrow> \<exists>c \<in> set cs. f c = Inl exc"
  by (induction cs) (auto split: sum.splits)

lemma first_exception_None_iff:
  "first_exception order outcomes = None \<longleftrightarrow> (\<forall>i \<in> set order. \<exists>r. outcomes ! i = Inr r)"
  by (induction order) (auto split: sum.splits)

lemma first_exception_Some:
  "first_exception order outcomes = Some exc \<Longrightarrow> \<exists>i \<in> set order. outcomes ! i = Inl exc"
  by (induction order) (auto split: sum.splits)

lemma set_completion_order: "set (completion_order sched n) = {0..<n}"
  by (auto simp: completion_order_def)

lemma map_filter_Inr:
  "List.map_filter (\<lambda>outcome. case outcome of Inl exc \<Rightarrow> None | Inr r \<Rightarrow> Some r) (map Inr rs) = rs"
  by (induction rs) (auto simp: List.map_filter_simps)

lemma all_Inr_iff:
  "(\<forall>i<length outcomes. \<exists>r. outcomes ! i = Inr r) \<longleftrightarrow> (\<exists>rs. outcomes = map Inr rs)"
proof
  assume a: "\<forall>i<length outcomes. \<exists>r. outcomes ! i = Inr r"
  have "outcomes = map Inr (map projr outcomes)"
    by (rule nth_equalityI) (use a in auto)
  then show "\<exists>rs. outcomes = map Inr rs" ..
next
  assume "\<exists>rs. outcomes = map Inr rs"
  then show "\<forall>i<length outcomes. \<exists>r. outcomes ! i = Inr r" by auto
qed

lemma gather_Inr_iff: "gather sched outcomes = Inr rs \<longleftrightarrow> outcomes = map Inr rs"
proof
  assume g: "gather sched outcomes = Inr rs"
  then have n: "first_exception (completion_order sched (length outcomes)) outcomes = None"
    by (auto simp: gather_def split: option.splits)
  then have "\<forall>i<length outcomes. \<exists>r. outcomes ! i = Inr r"
    by (simp add: first_exception_None_iff set_completion_order)
  then obtain rs' where rs': "outcomes = map Inr rs'"
    using all_Inr_iff by blast
  with g n show "outcomes = map Inr rs"
    by (simp add: gather_def map_filter_Inr)
next
  assume o: "outcomes = map Inr rs"
  then have "first_exception (completion_order sched (length outcomes)) outcomes = None"
    by (simp add: first_exception_None_iff set_completion_order)
  with o show "gather sched outcomes = Inr rs"
    by (simp add: gather_def map_filter_Inr)
qed

lemma gather_Inl: "gather sched outcomes = Inl exc \<Longrightarrow> Inl exc \<in> set outcomes"
proof -
  assume "gather sched outcomes = Inl exc"
  then have "first_exception (completion_order sched (length outcomes)) outcomes = Some exc"
    by (auto simp: gather_def split: option.splits)
  then obtain i where "i \<in> set (completion_order sched (length outcomes))"
    and "outcomes ! i = Inl exc"
    using first_exception_Some by blast
  then show ?thesis
    by (metis atLeastLessThan_iff nth_mem set_completion_order)
qed

lemma exec_tool_calls_Inr_map:
  "exec_tool_calls lib sched env message ordered handle_tool_exc function_kwargs = Inr responses
   \<longleftrightarrow> map (exec_tool_call lib env handle_tool_exc function_kwargs) (tool_calls message)
         = map Inr responses"
  by (simp add: exec_tool_calls_def gather_Inr_iff await_each_Inr_iff)

lemma exec_tool_calls_Inl:
  assumes "exec_tool_calls lib sched env message ordered handle_tool_exc function_kwargs = Inl exc"
  shows "\<exists>c \<in> set (tool_calls message).
           exec_tool_call lib env handle_tool_exc function_kwargs c = Inl exc"
proof (cases ordered)
  case True
  with assms show ?thesis by (simp add: exec_tool_calls_def await_each_Inl)
next
  case False
  with assms have "Inl exc \<in> set (map (exec_tool_call lib env handle_tool_exc function_kwargs)
      (tool_calls message))"
    by (simp add: exec_tool_calls_def gather_Inl del: set_map)
  then show ?thesis by auto
qed

lemma map_eq_nth_iff:
  "map f cs = map Inr rs
   \<longleftrightarrow> length rs = length cs \<and> (\<forall>i<length cs. f (cs ! i) = Inr (rs ! i))"
  by (auto simp: list_eq_iff_nth_eq)

lemma exec_tool_calls_raises:
  assumes "c \<in> set (tool_calls message)"
    and "exec_tool_call lib env handle_tool_exc function_kwargs c = Inl exc"
  shows "\<exists>exc'. exec_tool_calls lib sched env message ordered handle_tool_exc function_kwargs
           = Inl exc'
         \<and> (\<exists>c' \<in> set (tool_calls message).
               exec_tool_call lib env handle_tool_exc function_kwargs c' = Inl exc')"
proof (cases "exec_tool_calls lib sched env message ordered handle_tool_exc function_kwargs")
  case (Inl exc')
  then show ?thesis using exec_tool_calls_Inl [OF Inl] by simp
next
  case (Inr responses)
  then have "map (exec_tool_call lib env handle_tool_exc function_kwargs) (tool_calls message)
      = map Inr responses"
    by (simp add: exec_tool_calls_Inr_map)
  then have "exec_tool_call lib env handle_tool_exc function_kwargs c \<in> Inr ` set responses"
    using assms(1) by (metis image_eqI list.set_map)
  with assms(2) show ?thesis by auto
qed

lemma exec_tool_calls_only_failure:
  assumes "c \<in> set (tool_calls message)"
    and "exec_tool_call lib env handle_tool_exc function_kwargs c = Inl exc"
    and "\<forall>c' \<in> set (tool_calls message). c' \<noteq> c \<longrightarrow>
           (\<exists>r. exec_tool_call lib env handle_tool_exc function_kwargs c' = Inr r)"
  shows "exec_tool_calls lib sched env message ordered handle_tool_exc function_kwargs = Inl exc"
proof -
  obtain exc' c' where e: "exec_tool_calls lib sched env message ordered handle_tool_exc
      function_kwargs = Inl exc'"
    and c': "c' \<in> set (tool_calls message)"
      "exec_tool_call lib env handle_tool_exc function_kwargs c' = Inl exc'"
    using exec_tool_calls_raises [OF assms(1,2)] by blast
  have "c' = c" using assms(3) c' by force
  with c' assms(2) e show ?thesis by simp
qed

text \<open>
  C1. The claim says that \<^verbatim>\<open>exec_tool_calls\<close> returns a list for every message. It does
  not when a call raises: here the message names a tool the environment does not have,
  and both the sequential and the concurrent execution raise \<^verbatim>\<open>ValueError\<close>.
\<close>

theorem exec_tool_calls_unknown_tool_raises:
  "exec_tool_calls example_lib [] example_env
     (request [call_of ''1'' ''read_book'', call_of ''2'' ''write_book'']) True False []
     = Inl (ValueError ''write_book not a valid function.'')
   \<and> exec_tool_calls example_lib [] example_env
     (request [call_of ''1'' ''read_book'', call_of ''2'' ''write_book'']) False False []
     = Inl (ValueError ''write_book not a valid function.'')"
  by (simp add: example_defs exec_defs)

text \<open>
  C1, as amended. For either value of \<^verbatim>\<open>ordered\<close> and whatever the order in which
  concurrent tasks finish, \<^verbatim>\<open>exec_tool_calls\<close> returns a list of responses exactly when
  every tool call of the message is answered without an exception leaving
  \<^verbatim>\<open>_exec_tool_call\<close>, and then the list has the length of \<^verbatim>\<open>message.tool_calls\<close> and
  its i-th element is the response to the i-th call. When some call raises, so does
  \<^verbatim>\<open>exec_tool_calls\<close>.
\<close>

theorem exec_tool_calls_returns_iff:
  "exec_tool_calls lib sched env message ordered handle_tool_exc function_kwargs = Inr responses
   \<longleftrightarrow> length responses = length (tool_calls message)
       \<and> (\<forall>i<length (tool_calls message).
             exec_tool_call lib env handle_tool_exc function_kwargs (tool_calls message ! i)
               = Inr (responses ! i))"
  by (simp add: exec_tool_calls_Inr_map map_eq_nth_iff)

theorem exec_tool_calls_returns_iff_witness:
  "exec_tool_calls example_lib [1, 0] example_env
     (request [call_of ''1'' ''read_book'', call_of ''2'' ''noop'']) False False []
     = Inr [\<lparr>tool_call_id = ''1'', response_content = ''Read a book''\<rparr>,
            \<lparr>tool_call_id = ''2'', response_content = ''null''\<rparr>]
   \<and> exec_tool_calls example_lib [1, 0] example_env
     (request [call_of ''1'' ''read_book'', call_of ''2'' ''noop'']) True False []
     = Inr [\<lparr>tool_call_id = ''1'', response_content = ''Read a book''\<rparr>,
            \<lparr>tool_call_id = ''2'', response_content = ''null''\<rparr>]"
proof -
  let ?message = "request [call_of ''1'' ''read_book'', call_of ''2'' ''noop'']"
  let ?responses = "[\<lparr>tool_call_id = ''1'', response_content = ''Read a book''\<rparr>,
            \<lparr>tool_call_id = ''2'', response_content = ''null''\<rparr>]"
  have each: "length ?responses = length (tool_calls ?message)
       \<and> (\<forall>i<length (tool_calls ?message).
             exec_tool_call example_lib example_env False [] (tool_calls ?message ! i)
               = Inr (?responses ! i))"
    by (simp add: example_defs exec_defs less_Suc_eq)
  show ?thesis
    using each
      exec_tool_calls_returns_iff [of example_lib "[1, 0]" example_env ?message False False "[]"
        ?responses]
      exec_tool_calls_returns_iff [of example_lib "[1, 0]" example_env ?message True False "[]"
        ?responses]
    by blast
qed

subsection \<open>Unknown tools\<close>

lemma exec_tool_call_unknown:
  assumes "name (call_function tool_call) \<notin> info_name ` set (tools env)"
  shows "exec_tool_call lib env handle_tool_exc function_kwargs tool_call
         = Inl (ValueError (name (call_function tool_call) @ '' not a valid function.''))"
  using assms by (simp add: exec_tool_call_def find_tool_None_iff [symmetric])

text \<open>
  C2. A tool call whose function name is not the name of a tool of the environment makes
  \<^verbatim>\<open>_exec_tool_call\<close> raise \<^verbatim>\<open>ValueError("<name> not a valid function.")\<close>, with
  \<^verbatim>\<open>handle_tool_exc\<close> set or not. A message that holds such a call makes
  \<^verbatim>\<open>exec_tool_calls\<close> raise, and raise that error when the other calls raise nothing.
\<close>

theorem unknown_tool_rejected:
  assumes "name (call_function tool_call) \<notin> info_name ` set (tools env)"
  shows "exec_tool_call lib env True function_kwargs tool_call
           = Inl (ValueError (name (call_function tool_call) @ '' not a valid function.''))
       \<and> exec_tool_call lib env False function_kwargs tool_call
           = Inl (ValueError (name (call_function tool_call) @ '' not a valid function.''))
       \<and> (tool_call \<in> set (tool_calls message) \<longrightarrow>
            (\<exists>exc. exec_tool_calls lib sched env message ordered handle_tool_exc function_kwargs
               = Inl exc))
       \<and> (tool_call \<in> set (tool_calls message)
            \<and> (\<forall>c \<in> set (tool_calls message). c \<noteq> tool_call \<longrightarrow>
                 (\<exists>r. exec_tool_call lib env handle_tool_exc function_kwargs c = Inr r)) \<longrightarrow>
            exec_tool_calls lib sched env message ordered handle_tool_exc function_kwargs
              = Inl (ValueError (name (call_function tool_call) @ '' not a valid function.'')))"
proof (intro conjI impI)
  show "exec_tool_call lib env True function_kwargs tool_call
      = Inl (ValueError (name (call_function tool_call) @ '' not a valid function.''))"
    using assms by (rule exec_tool_call_unknown)
  show "exec_tool_call lib env False function_kwargs tool_call
      = Inl (ValueError (name (call_function tool_call) @ '' not a valid function.''))"
    using assms by (rule exec_tool_call_unknown)
next
  assume "tool_call \<in> set (tool_calls message)"
  then show "\<exists>exc. exec_tool_calls lib sched env message ordered handle_tool_exc
      function_kwargs = Inl exc"
    using exec_tool_calls_raises [OF _ exec_tool_call_unknown [OF assms]] by blast
next
  assume a: "tool_call \<in> set (tool_calls message)
    \<and> (\<forall>c \<in> set (tool_calls message). c \<noteq> tool_call \<longrightarrow>
         (\<exists>r. exec_tool_call lib env handle_tool_exc function_kwargs c = Inr r))"
  show "exec_tool_calls lib sched env message ordered handle_tool_exc function_kwargs
      = Inl (ValueError (name (call_function tool_call) @ '' not a valid function.''))"
    by (rule exec_tool_calls_only_failure [OF _ exec_tool_call_unknown [OF assms]])
      (use a in auto)
qed

theorem unknown_tool_rejected_witness:
  "exec_tool_call example_lib example_env True [] (call_of ''2'' ''write_book'')
     = Inl (ValueError ''write_book not a valid function.'')
   \<and> exec_tool_calls example_lib [] example_env
       (request [call_of ''1'' ''read_book'', call_of ''2'' ''write_book'']) False True []
     = Inl (ValueError ''write_book not a valid function.'')"
proof -
  let ?call = "call_of ''2'' ''write_book''"
  let ?message = "request [call_of ''1'' ''read_book'', ?call]"
  have unknown: "name (call_function ?call) \<notin> info_name ` set (tools example_env)"
    by (simp add: example_defs)
  have others: "?call \<in> set (tool_calls ?message)
    \<and> (\<forall>c \<in> set (tool_calls ?message). c \<noteq> ?call \<longrightarrow>
         (\<exists>r. exec_tool_call example_lib example_env True [] c = Inr r))"
    by (simp add: example_defs exec_defs)
  have n: "name (call_function ?call) = ''write_book''"
    by (simp add: call_of_def)
  show ?thesis
    using unknown_tool_rejected [OF unknown, of example_lib "[]" ?message "[]" False True]
      others
    unfolding n by simp
qed

subsection \<open>Exceptions of tool functions\<close>



text \<open>
  The execution raises when the tool function raises as it is called, or is a coroutine
  function whose coroutine raises as it is awaited.
\<close>

lemma run_tool_fn_raises:
  "call fn args kwargs = Inl exc \<Longrightarrow> run_tool_fn lib fn args kwargs = Inl exc"
  "is_coroutine_callable (kind fn) \<Longrightarrow> call fn args kwargs = Inr (Awaitable (Inl exc))
     \<Longrightarrow> run_tool_fn lib fn args kwargs = Inl exc"
  by (simp_all add: run_tool_fn_def to_thread_def)



subsection \<open>Serialisation of the returned value\<close>

text \<open>
  When the execution of the tool function (the call and, for what
  \<^verbatim>\<open>is_coroutine_callable\<close> accepts, the wait for the result) gives a value \<open>v\<close>, the
  content of the response is \<open>v\<close> itself when \<open>v\<close> is a \<^verbatim>\<open>str\<close>, the JSON dump of
  the model when \<open>v\<close> is a \<^verbatim>\<open>BaseModel\<close>, and \<^verbatim>\<open>json.dumps(v)\<close> for every other
  value, \<^verbatim>\<open>None\<close> among them.
\<close>

lemma response_content_by_type:
  assumes "find_tool env (name (call_function tool_call)) = Some tool"
    and "run_tool_fn lib (tool_fn tool) (arguments (call_function tool_call))
           (filter_kwargs (tool_fn tool) function_kwargs) = Inr v"
  shows "(\<forall>s. v = Str s \<longrightarrow>
            exec_tool_call lib env handle_tool_exc function_kwargs tool_call
              = Inr (from_call tool_call s)
            \<and> response_content (from_call tool_call s) = s)
       \<and> (\<forall>m s. v = BaseModel m \<and> model_dump_json lib m = Inr s \<longrightarrow>
            exec_tool_call lib env handle_tool_exc function_kwargs tool_call
              = Inr (from_call tool_call s)
            \<and> response_content (from_call tool_call s) = s)
       \<and> (\<forall>s. (\<forall>s'. v \<noteq> Str s') \<and> (\<forall>m. v \<noteq> BaseModel m) \<and> json_dumps lib v = Inr s \<longrightarrow>
            exec_tool_call lib env handle_tool_exc function_kwargs tool_call
              = Inr (from_call tool_call s)
            \<and> response_content (from_call tool_call s) = s)
       \<and> (\<forall>s. v = NoneValue \<and> json_dumps lib NoneValue = Inr s \<longrightarrow>
            exec_tool_call lib env handle_tool_exc function_kwargs tool_call
              = Inr (from_call tool_call s))"
  using assms by (cases v) (auto simp: exec_tool_call_def from_call_def)

text \<open>
  The value reaches the serialisation when the tool function is a coroutine function, or
  a callable \<^verbatim>\<open>is_coroutine_callable\<close> rejects, that returns it.
\<close>

lemma run_tool_fn_returns:
  "is_coroutine_callable (kind fn) \<Longrightarrow> call fn args kwargs = Inr (Awaitable (Inr v))
     \<Longrightarrow> run_tool_fn lib fn args kwargs = Inr v"
  "\<not> is_coroutine_callable (kind fn) \<Longrightarrow> call fn args kwargs = Inr v
     \<Longrightarrow> run_tool_fn lib fn args kwargs = Inr v"
  by (simp_all add: run_tool_fn_def to_thread_def)

lemma response_content_examples:
  "exec_tool_call example_lib example_env False [] (call_of ''1'' ''read_book'')
     = Inr \<lparr>tool_call_id = ''1'', response_content = ''Read a book''\<rparr>
   \<and> exec_tool_call example_lib example_env False [] (call_of ''4'' ''noop'')
     = Inr \<lparr>tool_call_id = ''4'', response_content = ''null''\<rparr>"
  by (simp add: example_defs exec_defs)

text \<open>
  C5. The claim gives the content of the response to a call whose function executes
  without raising: the returned value itself when it is a \<^verbatim>\<open>str\<close>. The synchronous
  function \<^verbatim>\<open>get_todo_list_no_args\<close> executes without raising and returns the text
  ``Go for a walk''. With \<^verbatim>\<open>handle_tool_exc\<close> set, the content of the response to its
  call is not that text but the report of a \<^verbatim>\<open>TypeError\<close>: the function is taken for a
  coroutine function and the text it returns is awaited.
\<close>

theorem sync_function_content_is_not_its_result:
  "call (tool_fn get_todo_list_no_args) [] [] = Inr (Str ''Go for a walk'')
   \<and> exec_tool_call example_lib example_env True [] (call_of ''1'' ''get_todo_list_no_args'')
       = Inr \<lparr>tool_call_id = ''1'',
              response_content =
                ''Failed to execute tool call for tool get_todo_list_no_args:'' @ [CHR 0x0A]
                  @ ''object str can't be used in 'await' expression''\<rparr>
   \<and> exec_tool_calls example_lib [] example_env
         (request [call_of ''1'' ''get_todo_list_no_args'']) False True []
       = Inr [\<lparr>tool_call_id = ''1'',
               response_content =
                 ''Failed to execute tool call for tool get_todo_list_no_args:'' @ [CHR 0x0A]
                   @ ''object str can't be used in 'await' expression''\<rparr>]"
  by (simp add: example_defs exec_defs List.map_filter_simps)

subsection \<open>Responses and the calls they answer\<close>

lemma exec_tool_call_from_call:
  assumes "exec_tool_call lib env handle_tool_exc function_kwargs tool_call = Inr r"
  shows "\<exists>s. r = from_call tool_call s"
  using assms
  by (auto simp: exec_tool_call_def Let_def split: option.splits sum.splits if_splits)

text \<open>
  C6. Every response \<^verbatim>\<open>exec_tool_calls\<close> returns is \<^verbatim>\<open>from_call\<close> of the call at the
  same place of the message, with some content, and so carries the identifier of that
  call.
\<close>

theorem responses_paired_by_identifier:
  assumes "exec_tool_calls lib sched env message ordered handle_tool_exc function_kwargs
             = Inr responses"
  shows "length responses = length (tool_calls message)
       \<and> (\<forall>i<length (tool_calls message).
            (\<exists>s. responses ! i = from_call (tool_calls message ! i) s)
            \<and> tool_call_id (responses ! i) = call_id (tool_calls message ! i))"
proof -
  from assms have len: "length responses = length (tool_calls message)"
    and each: "\<forall>i<length (tool_calls message).
      exec_tool_call lib env handle_tool_exc function_kwargs (tool_calls message ! i)
        = Inr (responses ! i)"
    by (simp_all add: exec_tool_calls_Inr_map map_eq_nth_iff)
  have "(\<exists>s. responses ! i = from_call (tool_calls message ! i) s)
      \<and> tool_call_id (responses ! i) = call_id (tool_calls message ! i)"
    if "i < length (tool_calls message)" for i
  proof -
    from each that obtain s where "responses ! i = from_call (tool_calls message ! i) s"
      using exec_tool_call_from_call by blast
    then show ?thesis by (auto simp: from_call_def)
  qed
  with len show ?thesis by blast
qed

theorem responses_paired_by_identifier_witness:
  "length [\<lparr>tool_call_id = ''1'', response_content = ''Read a book''\<rparr>,
           \<lparr>tool_call_id = ''2'', response_content = ''null''\<rparr>] = 2
   \<and> tool_call_id ([\<lparr>tool_call_id = ''1'', response_content = ''Read a book''\<rparr>,
           \<lparr>tool_call_id = ''2'', response_content = ''null''\<rparr>] ! 1)
      = call_id (tool_calls (request [call_of ''1'' ''read_book'', call_of ''2'' ''noop'']) ! 1)"
proof -
  let ?message = "request [call_of ''1'' ''read_book'', call_of ''2'' ''noop'']"
  let ?responses = "[\<lparr>tool_call_id = ''1'', response_content = ''Read a book''\<rparr>,
           \<lparr>tool_call_id = ''2'', response_content = ''null''\<rparr>]"
  have returns: "exec_tool_calls example_lib [1, 0] example_env ?message False False []
      = Inr ?responses"
    by (simp add: example_defs exec_defs List.map_filter_simps)
  have one: "1 < length (tool_calls ?message)"
    by (simp add: request_def)
  have "length ?responses = length (tool_calls ?message)"
    and "\<forall>i<length (tool_calls ?message).
      (\<exists>s. ?responses ! i = from_call (tool_calls ?message ! i) s)
      \<and> tool_call_id (?responses ! i) = call_id (tool_calls ?message ! i)"
    using responses_paired_by_identifier [OF returns] by blast+
  with one have "length ?responses = length (tool_calls ?message)
    \<and> tool_call_id (?responses ! 1) = call_id (tool_calls ?message ! 1)"
    by blast
  then show ?thesis by (simp add: request_def)
qed

subsection \<open>Coroutine functions\<close>

text \<open>
  Every coroutine function is accepted, and so is every other function, method and
  callable object with a \<^verbatim>\<open>__call__\<close> method.
\<close>

lemma is_coroutine_function_callable:
  "is_coroutine_function obj \<Longrightarrow> is_coroutine_callable obj"
  by (cases obj) (simp_all add: isinstance_int_def)

lemma is_coroutine_callable_function:
  "is_coroutine_callable (FunctionOrMethod co_flags)"
  "is_coroutine_callable (CallableInstance co_flags)"
  by (simp_all add: isinstance_int_def)

text \<open>
  C7. \<^verbatim>\<open>is_coroutine_callable\<close> answers \<^verbatim>\<open>True\<close> for the synchronous function
  \<^verbatim>\<open>get_todo_list_no_args\<close>, whose code flags do not have \<^verbatim>\<open>CO_COROUTINE\<close>. The
  function is therefore called and its result awaited, not run by
  \<^verbatim>\<open>asyncio.to_thread\<close>: the text it returns is not awaitable, and
  \<^verbatim>\<open>_exec_tool_call\<close> raises \<^verbatim>\<open>TypeError\<close> where the worker thread would have handed
  back the text.
\<close>

theorem is_coroutine_callable_sync_function:
  "is_coroutine_callable (kind (tool_fn get_todo_list_no_args))
   \<and> \<not> is_coroutine_function (kind (tool_fn get_todo_list_no_args))
   \<and> exec_tool_call example_lib example_env False [] (call_of ''1'' ''get_todo_list_no_args'')
       = Inl (TypeError ''object str can't be used in 'await' expression'')
   \<and> to_thread (call (tool_fn get_todo_list_no_args) [] []) = Inr (Str ''Go for a walk'')"
  by (simp add: example_defs exec_defs)

subsection \<open>Sequential against concurrent execution\<close>

text \<open>
  C8. Tool functions are functions of their arguments here. Whatever the order in which
  the concurrent tasks finish, the sequential execution returns a list of responses
  exactly when the concurrent one returns that list; and one raises exactly when the
  other does.
\<close>

theorem ordered_unordered_same_responses:
  "(exec_tool_calls lib sched env message True handle_tool_exc function_kwargs = Inr responses
    \<longleftrightarrow> exec_tool_calls lib sched' env message False handle_tool_exc function_kwargs
          = Inr responses)
   \<and> ((\<exists>exc. exec_tool_calls lib sched env message True handle_tool_exc function_kwargs
            = Inl exc)
    \<longleftrightarrow> (\<exists>exc. exec_tool_calls lib sched' env message False handle_tool_exc function_kwargs
            = Inl exc))"
proof -
  have same: "exec_tool_calls lib sched env message True handle_tool_exc function_kwargs = Inr rs
    \<longleftrightarrow> exec_tool_calls lib sched' env message False handle_tool_exc function_kwargs = Inr rs"
    for rs
    by (simp add: exec_tool_calls_Inr_map)
  have "(\<exists>exc. x = Inl exc) \<longleftrightarrow> (\<forall>rs. x \<noteq> Inr rs)"
    for x :: "py_exception + ToolResponseMessage list"
    by (cases x) auto
  with same show ?thesis by simp
qed

text \<open>
  When both raise, the exceptions may differ: the sequential execution raises the
  exception of the first call of the message that fails, the concurrent one that of the
  first task to fail.
\<close>

lemma ordered_unordered_exceptions_example:
  "exec_tool_calls example_lib [] example_env
     (request [call_of ''1'' ''boom'', call_of ''2'' ''write_book'']) True False []
     = Inl (PyException ''RuntimeError'' ''boom'' True)
   \<and> exec_tool_calls example_lib [1, 0] example_env
     (request [call_of ''1'' ''boom'', call_of ''2'' ''write_book'']) False False []
     = Inl (ValueError ''write_book not a valid function.'')"
  by (simp add: example_defs exec_defs)

section \<open>Properties of the batches\<close>

lemma ceil_div_step:
  fixes L b :: nat
  assumes "0 < b" "0 < L"
  shows "(L + b - 1) div b = Suc ((L - b + b - 1) div b)"
proof (cases "b \<le> L")
  case True
  then have "L + b - 1 = (L - 1) + b" using assms by simp
  then have "(L + b - 1) div b = Suc ((L - 1) div b)"
    using assms div_add_self2 [of b "L - 1"] by simp
  moreover have "L - b + b - 1 = L - 1" using True by simp
  ultimately show ?thesis by simp
next
  case False
  then have "L - b = 0" by simp
  moreover have "(L + b - 1) div b = 1"
  proof -
    have "L + b - 1 = (L - 1) + b" using assms by simp
    moreover have "(L - 1) div b = 0" using False assms by simp
    ultimately show ?thesis using assms div_add_self2 [of b "L - 1"] by simp
  qed
  moreover have "(b - 1) div b = 0" using assms by simp
  ultimately show ?thesis by simp
qed

lemma batches_loop_chunks:
  assumes b: "1 \<le> batch_size"
  shows "\<exists>bs. batches_loop ds batch_size idcs = Some (map (map (get_new_env_by_idx ds)) bs)
           \<and> concat bs = idcs
           \<and> length bs = (length idcs + nat batch_size - 1) div nat batch_size
           \<and> (\<forall>batch \<in> set (butlast bs). length batch = nat batch_size)
           \<and> (bs \<noteq> [] \<longrightarrow> length (last bs) = length idcs - (length bs - 1) * nat batch_size
                \<and> 1 \<le> length (last bs) \<and> length (last bs) \<le> nat batch_size)"
proof (induction idcs rule: length_induct)
  case (1 idcs)
  define bn where "bn = nat batch_size"
  have bn: "0 < bn" using b by (simp add: bn_def)
  have st: "slice_to xs batch_size = take bn xs" for xs :: "nat list"
    using b by (simp add: slice_to_def bn_def)
  have sf: "slice_from xs batch_size = drop bn xs" for xs :: "nat list"
    using b by (simp add: slice_from_def bn_def)
  show ?case
  proof (cases "idcs = []")
    case True
    have "batches_loop ds batch_size idcs = Some []"
      by (subst batches_loop.simps) (simp add: True)
    moreover have "(bn - 1) div bn = 0" using bn by simp
    ultimately show ?thesis using True
      by (intro exI [of _ "[]"]) (simp add: bn_def)
  next
    case False
    then have "length (drop bn idcs) < length idcs" using bn by simp
    with 1 obtain bs where
      bs1: "batches_loop ds batch_size (drop bn idcs) = Some (map (map (get_new_env_by_idx ds)) bs)"
      and bs2: "concat bs = drop bn idcs"
      and bs3: "length bs = (length (drop bn idcs) + bn - 1) div bn"
      and bs4: "\<forall>batch \<in> set (butlast bs). length batch = bn"
      and bs5: "bs \<noteq> [] \<longrightarrow> length (last bs) = length (drop bn idcs) - (length bs - 1) * bn
                \<and> 1 \<le> length (last bs) \<and> length (last bs) \<le> bn"
      unfolding bn_def by blast
    let ?bs = "take bn idcs # bs"
    have r1: "batches_loop ds batch_size idcs = Some (map (map (get_new_env_by_idx ds)) ?bs)"
      by (subst batches_loop.simps) (simp add: False st sf bs1 Let_def)
    have r2: "concat ?bs = idcs" using bs2 by simp
    have L: "0 < length idcs" using False by simp
    have r3: "length ?bs = (length idcs + bn - 1) div bn"
      using bs3 ceil_div_step [OF bn L] by simp
    have empty_iff: "bs = [] \<longleftrightarrow> length idcs \<le> bn"
    proof
      assume "bs = []"
      with bs2 show "length idcs \<le> bn" by simp
    next
      assume "length idcs \<le> bn"
      then have "drop bn idcs = []" by simp
      with bs3 bn show "bs = []" by simp
    qed
    have r4: "\<forall>batch \<in> set (butlast ?bs). length batch = bn"
      using bs4 empty_iff by auto
    have r5: "length (last ?bs) = length idcs - (length ?bs - 1) * bn
                \<and> 1 \<le> length (last ?bs) \<and> length (last ?bs) \<le> bn"
    proof (cases "bs = []")
      case True
      with empty_iff False show ?thesis by (cases idcs) simp_all
    next
      case nonempty: False
      then have "length bs \<ge> 1" by (cases bs) auto
      then have "(length bs - 1) * bn + bn = length bs * bn"
        by (metis add.commute mult_eq_if not_one_le_zero)
      moreover have "bn < length idcs" using nonempty empty_iff by simp
      ultimately have "length idcs - bn - (length bs - 1) * bn = length idcs - length bs * bn"
        by simp
      with bs5 nonempty show ?thesis by simp
    qed
    have "batches_loop ds batch_size idcs = Some (map (map (get_new_env_by_idx ds)) ?bs)
           \<and> concat ?bs = idcs
           \<and> length ?bs = (length idcs + bn - 1) div bn
           \<and> (\<forall>batch \<in> set (butlast ?bs). length batch = bn)
           \<and> (?bs \<noteq> [] \<longrightarrow> length (last ?bs) = length idcs - (length ?bs - 1) * bn
                \<and> 1 \<le> length (last ?bs) \<and> length (last ?bs) \<le> bn)"
      using r1 r2 r3 r4 r5 by blast
    then show ?thesis
      unfolding bn_def by (rule exI [of _ "take (nat batch_size) idcs # bs"])
  qed
qed

lemma ceil_int: 
  fixes l b :: int
  assumes b: "0 < b"
  shows "- (- l div b) = (l + b - 1) div b"
proof -
  define q where "q = l div b"
  define r where "r = l mod b"
  have l: "l = q * b + r" by (simp add: q_def r_def)
  have r: "0 \<le> r" "r < b" using b by (simp_all add: r_def)
  show ?thesis
  proof (cases "r = 0")
    case True
    have "- l = (- q) * b" using l True by simp
    then have "- l div b = - q" using b nonzero_mult_div_cancel_right [of b "- q"] by simp
    moreover have "(l + b - 1) div b = q + (b - 1) div b"
    proof -
      have "l + b - 1 = q * b + (b - 1)" using l True by simp
      moreover have "(q * b + (b - 1)) div b = q + (b - 1) div b"
        by (rule div_mult_self3) (use b in simp)
      ultimately show ?thesis by (simp only:)
    qed
    moreover have "(b - 1) div b = 0" using b by (simp add: div_pos_pos_trivial)
    ultimately show ?thesis by simp
  next
    case False
    have "- l div b = (- q - 1) + (b - r) div b"
    proof -
      have "- l = (- q - 1) * b + (b - r)" using l by (simp add: algebra_simps)
      moreover have "((- q - 1) * b + (b - r)) div b = (- q - 1) + (b - r) div b"
        by (rule div_mult_self3) (use b in simp)
      ultimately show ?thesis by (simp only:)
    qed
    moreover have "(b - r) div b = 0" using r False by (simp add: div_pos_pos_trivial)
    moreover have "(l + b - 1) div b = (q + 1) + (r - 1) div b"
    proof -
      have "l + b - 1 = (q + 1) * b + (r - 1)" using l by (simp add: algebra_simps)
      moreover have "((q + 1) * b + (r - 1)) div b = (q + 1) + (r - 1) div b"
        by (rule div_mult_self3) (use b in simp)
      ultimately show ?thesis by (simp only:)
    qed
    moreover have "(r - 1) div b = 0" using r False by (simp add: div_pos_pos_trivial)
    ultimately show ?thesis by simp
  qed
qed

lemma ceiling_nat_div:
  fixes L :: nat and b :: int
  assumes "1 \<le> b"
  shows "\<lceil>real L / real_of_int b\<rceil> = int ((L + nat b - 1) div nat b)"
proof -
  have "\<lceil>real L / real_of_int b\<rceil> = \<lceil>of_int (int L) / (of_int b :: real)\<rceil>" by simp
  also have "\<dots> = - (- int L div b)" by (rule ceiling_divide_eq_div)
  also have "\<dots> = (int L + b - 1) div b" using assms by (simp add: ceil_int)
  also have "\<dots> = int ((L + nat b - 1) div nat b)"
  proof -
    have "int (L + nat b - 1) = int L + b - 1" using assms by simp
    moreover have "int (nat b) = b" using assms by simp
    ultimately show ?thesis by (metis zdiv_int)
  qed
  finally show ?thesis .
qed



text \<open>
  C9. For a dataset of length \<open>n\<close> and a batch size of at least 1, \<^verbatim>\<open>iter_batches\<close>
  stops after \<open>\<lceil>n / batch_size\<rceil>\<close> batches. Each batch is the list of the environments of
  a list of indices; these lists, one after the other, hold every index below \<open>n\<close>
  once, and are \<open>0, \<dots>, n - 1\<close> in this order when \<^verbatim>\<open>shuffle\<close> is unset. Every batch
  but the last has \<open>batch_size\<close> indices, and the last has the remainder, at least one
  and at most \<open>batch_size\<close>. \<^verbatim>\<open>random.shuffle\<close> permutes the list it is given.
\<close>

theorem iter_batches_finite:
  assumes "len ds = Some n"
    and "1 \<le> batch_size"
    and "\<And>xs. mset (random_shuffle xs) = mset xs"
  shows "\<exists>index_batches.
           iter_batches random_shuffle ds batch_size shuffle
             = Some (map (map (get_new_env_by_idx ds)) index_batches)
         \<and> int (length index_batches) = \<lceil>real n / real_of_int batch_size\<rceil>
         \<and> mset (concat index_batches) = mset [0..<n]
         \<and> (\<forall>batch \<in> set (butlast index_batches). int (length batch) = batch_size)
         \<and> (index_batches \<noteq> [] \<longrightarrow>
               int (length (last index_batches))
                 = int n - (int (length index_batches) - 1) * batch_size
               \<and> 1 \<le> length (last index_batches)
               \<and> int (length (last index_batches)) \<le> batch_size)
         \<and> (\<not> shuffle \<longrightarrow> concat index_batches = [0..<n])"
proof -
  define idcs where "idcs = (if shuffle then random_shuffle [0..<n] else [0..<n])"
  have perm: "mset idcs = mset [0..<n]"
    using assms(3) by (simp add: idcs_def)
  then have len_idcs: "length idcs = n"
    by (metis length_upt minus_nat.diff_0 size_mset)
  have iter: "iter_batches random_shuffle ds batch_size shuffle = batches_loop ds batch_size idcs"
    using assms(1) by (simp add: iter_batches_def idcs_def)
  obtain bs where
    bs1: "batches_loop ds batch_size idcs = Some (map (map (get_new_env_by_idx ds)) bs)"
    and bs2: "concat bs = idcs"
    and bs3: "length bs = (length idcs + nat batch_size - 1) div nat batch_size"
    and bs4: "\<forall>batch \<in> set (butlast bs). length batch = nat batch_size"
    and bs5: "bs \<noteq> [] \<longrightarrow> length (last bs) = length idcs - (length bs - 1) * nat batch_size
                \<and> 1 \<le> length (last bs) \<and> length (last bs) \<le> nat batch_size"
    using batches_loop_chunks [OF assms(2), of ds idcs] by blast
  have b: "int (nat batch_size) = batch_size"
    using assms(2) by simp
  have c1: "iter_batches random_shuffle ds batch_size shuffle
      = Some (map (map (get_new_env_by_idx ds)) bs)"
    using iter bs1 by simp
  have c2: "int (length bs) = \<lceil>real n / real_of_int batch_size\<rceil>"
    using bs3 len_idcs ceiling_nat_div [OF assms(2), of n] by simp
  have c3: "mset (concat bs) = mset [0..<n]"
    using bs2 perm by simp
  have c4: "\<forall>batch \<in> set (butlast bs). int (length batch) = batch_size"
    using bs4 b by simp
  have c5: "int (length (last bs)) = int n - (int (length bs) - 1) * batch_size
      \<and> 1 \<le> length (last bs) \<and> int (length (last bs)) \<le> batch_size" if "bs \<noteq> []"
  proof -
    from that bs5 have l: "length (last bs) = length idcs - (length bs - 1) * nat batch_size"
      and l1: "1 \<le> length (last bs)" and l2: "length (last bs) \<le> nat batch_size"
      by simp_all
    from l l1 have "(length bs - 1) * nat batch_size \<le> length idcs" by linarith
    with l have "int (length (last bs)) = int (length idcs) - int ((length bs - 1) * nat batch_size)"
      by simp
    moreover have "int (length bs - 1) = int (length bs) - 1"
      using that by (cases bs) simp_all
    ultimately have "int (length (last bs)) = int n - (int (length bs) - 1) * batch_size"
      using b len_idcs by simp
    moreover have "int (length (last bs)) \<le> batch_size" using l2 b by linarith
    ultimately show ?thesis using l1 by simp
  qed
  have c6: "\<not> shuffle \<longrightarrow> concat bs = [0..<n]"
    using bs2 by (simp add: idcs_def)
  have "iter_batches random_shuffle ds batch_size shuffle
             = Some (map (map (get_new_env_by_idx ds)) bs)
         \<and> int (length bs) = \<lceil>real n / real_of_int batch_size\<rceil>
         \<and> mset (concat bs) = mset [0..<n]
         \<and> (\<forall>batch \<in> set (butlast bs). int (length batch) = batch_size)
         \<and> (bs \<noteq> [] \<longrightarrow>
               int (length (last bs)) = int n - (int (length bs) - 1) * batch_size
               \<and> 1 \<le> length (last bs)
               \<and> int (length (last bs)) \<le> batch_size)
         \<and> (\<not> shuffle \<longrightarrow> concat bs = [0..<n])"
    using c1 c2 c3 c4 c5 c6 by blast
  then show ?thesis by (rule exI [of _ bs])
qed

theorem iter_batches_finite_witness:
  "\<exists>index_batches.
     iter_batches rev \<lparr>len = Some 5, get_new_env_by_idx = (\<lambda>idx. 10 * idx)\<rparr> 2 False
       = Some (map (map (\<lambda>idx. 10 * idx)) index_batches)
     \<and> length index_batches = 3
     \<and> concat index_batches = [0, 1, 2, 3, 4]
     \<and> length (last index_batches) = 1"
proof -
  let ?ds = "\<lparr>len = Some 5, get_new_env_by_idx = (\<lambda>idx. 10 * idx :: nat)\<rparr>"
  have l: "len ?ds = Some 5" by simp
  have b: "(1::int) \<le> 2" by simp
  have p: "mset (rev xs) = mset xs" for xs :: "nat list" by simp
  have c: "\<lceil>real 5 / real_of_int 2\<rceil> = 3" by simp
  have u: "[0..<5] = [0, 1, 2, 3, 4]" by (simp add: upt_rec)
  obtain index_batches where
    "iter_batches rev ?ds 2 False = Some (map (map (get_new_env_by_idx ?ds)) index_batches)"
    and "int (length index_batches) = \<lceil>real 5 / real_of_int 2\<rceil>"
    and "index_batches \<noteq> [] \<longrightarrow>
           int (length (last index_batches)) = int 5 - (int (length index_batches) - 1) * 2"
    and "\<not> False \<longrightarrow> concat index_batches = [0..<5]"
    using iter_batches_finite [OF l b p, of False] by blast
  then have "iter_batches rev ?ds 2 False = Some (map (map (\<lambda>idx. 10 * idx)) index_batches)
     \<and> length index_batches = 3
     \<and> concat index_batches = [0, 1, 2, 3, 4]
     \<and> length (last index_batches) = 1"
    unfolding c u by auto
  then show ?thesis by (rule exI [of _ index_batches])
qed

lemma iter_batches_example:
  "iter_batches rev \<lparr>len = Some 5, get_new_env_by_idx = (\<lambda>idx. 10 * idx)\<rparr> 2 False
     = Some [[0, 10], [20, 30], [40]]"
proof -
  let ?ds = "\<lparr>len = Some 5, get_new_env_by_idx = (\<lambda>idx. 10 * idx :: nat)\<rparr>"
  have u: "[0..<5] = [0, 1, 2, 3, 4]" by (simp add: upt_rec)
  have "batches_loop ?ds 2 [] = Some []"
    by (subst batches_loop.simps) simp
  then have "batches_loop ?ds 2 [4] = Some [[40]]"
    by (subst batches_loop.simps) (simp add: slice_to_def slice_from_def)
  then have "batches_loop ?ds 2 [2, 3, 4] = Some [[20, 30], [40]]"
    by (subst batches_loop.simps) (simp add: slice_to_def slice_from_def)
  then have "batches_loop ?ds 2 [0, 1, 2, 3, 4] = Some [[0, 10], [20, 30], [40]]"
    by (subst batches_loop.simps) (simp add: slice_to_def slice_from_def)
  then show ?thesis
    by (simp add: iter_batches_def u)
qed

section \<open>Properties of partial formatting\<close>

lemmas format_defs = str_format_def parse_format_def replacement_fields_def well_formed_def
  is_keyword_field_def arg_name_def get_integer_def digitval_def output_markup_def
  get_field_object_def emit_def format_str_value_def

lemma build_string_KeyError:
  "list_all (\<lambda>seg. \<not> is_syntax_error seg) segs \<Longrightarrow>
   list_all is_keyword_field (fields_of segs) \<Longrightarrow>
   list_ex (\<lambda>f. arg_name f \<noteq> k) (fields_of segs) \<Longrightarrow>
   (\<And>f exc. f \<in> set (fields_of segs) \<Longrightarrow> render [(k, v)] v f = Inl exc
      \<Longrightarrow> exc_class exc = ''KeyError'') \<Longrightarrow>
   \<exists>err. build_string render [(k, v)] segs = Inl err \<and> is_KeyError err"
proof (induction segs)
  case Nil
  then show ?case by simp
next
  case (Cons seg segs)
  show ?case
  proof (cases seg)
    case (Literal l)
    with Cons show ?thesis by auto
  next
    case (SyntaxError msg)
    with Cons.prems show ?thesis by simp
  next
    case (Field f)
    with Cons.prems have kw: "is_keyword_field f" by simp
    show ?thesis
    proof (cases "arg_name f = k")
      case False
      with kw have "get_field_object [(k, v)] f = Inl (KeyError (arg_name f))"
        by (simp add: get_field_object_def is_keyword_field_def)
      then show ?thesis using Field by (simp add: output_markup_def)
    next
      case True
      with kw have obj: "get_field_object [(k, v)] f = Inr v"
        by (simp add: get_field_object_def is_keyword_field_def)
      show ?thesis
      proof (cases "render [(k, v)] v f")
        case (Inl exc)
        then have "exc_class exc = ''KeyError''"
          using Cons.prems(4) [of f exc] Field by simp
        with Inl obj Field show ?thesis by (simp add: output_markup_def)
      next
        case (Inr out)
        from Cons.prems Field True have "list_ex (\<lambda>f. arg_name f \<noteq> k) (fields_of segs)"
          by simp
        moreover from Cons.prems Field
        have "list_all (\<lambda>seg. \<not> is_syntax_error seg) segs"
          and "list_all is_keyword_field (fields_of segs)"
          by simp_all
        moreover have "exc_class exc = ''KeyError''"
          if "g \<in> set (fields_of segs)" and "render [(k, v)] v g = Inl exc" for g exc
          using Cons.prems(4) [of g exc] that Field by simp
        ultimately obtain err where "build_string render [(k, v)] segs = Inl err"
          and "is_KeyError err"
          using Cons.IH by blast
        with Inr obj Field show ?thesis by (simp add: output_markup_def)
      qed
    qed
  qed
qed

lemma two_names_other:
  assumes "list_ex (\<lambda>f. list_ex (\<lambda>g. arg_name f \<noteq> arg_name g) fs) fs"
  shows "list_ex (\<lambda>f. arg_name f \<noteq> k) fs"
  using assms unfolding list_ex_iff by metis

text \<open>
  C10. The claim says that a format string with two or more distinct replacement fields
  comes back unchanged. The string \<^verbatim>\<open>{a} {a!s}\<close> has two distinct replacement fields,
  the formats supply \<^verbatim>\<open>a\<close>, the only name they need, and both fields are replaced.
\<close>

theorem partial_format_same_key_substituted:
  "length (remdups (replacement_fields ''{a} {a!s}'')) = 2
   \<and> partial_format format_str_value ''{a} {a!s}'' [(''a'', ''x'')] = Inr ''x x''"
  by (simp add: format_defs)

text \<open>
  A field with an index is another case the claim does not hold in: the formats can only
  supply keyword arguments, \<^verbatim>\<open>str.format\<close> raises \<^verbatim>\<open>IndexError\<close>, and
  \<^verbatim>\<open>contextlib.suppress(KeyError)\<close> lets it pass.
\<close>

lemma partial_format_positional_raises:
  "partial_format format_str_value ''{0} {1}'' [(''0'', ''x''), (''1'', ''y'')]
     = Inl (IndexError 0)"
  by (simp add: format_defs PY_SSIZE_T_MAX_def)

lemma partial_format_KeyError_each:
  assumes "well_formed s"
    and "list_all is_keyword_field (replacement_fields s)"
    and "\<And>f kwargs obj exc. f \<in> set (replacement_fields s) \<Longrightarrow> render kwargs obj f = Inl exc
           \<Longrightarrow> exc_class exc = ''KeyError''"
  shows "list_all (\<lambda>(k, v). list_ex (\<lambda>f. arg_name f \<noteq> k) (replacement_fields s)) formats
         \<Longrightarrow> partial_format render s formats = Inr s"
proof (induction formats)
  case Nil
  show ?case by simp
next
  case (Cons kv formats)
  obtain k v where kv: "kv = (k, v)" by (cases kv)
  with Cons.prems have "list_ex (\<lambda>f. arg_name f \<noteq> k) (replacement_fields s)"
    by simp
  then have "\<exists>err. build_string render [(k, v)] (parse_format s) = Inl err \<and> is_KeyError err"
    using assms
    unfolding well_formed_def replacement_fields_def
    by (intro build_string_KeyError) auto
  then obtain err where "str_format render s [(k, v)] = Inl err" "is_KeyError err"
    unfolding str_format_def by blast
  with Cons kv show ?case by simp
qed

text \<open>
  C10, as amended. Let the format string be well formed, let every replacement field
  name a keyword argument, and let the formatting of a value by a field of the string
  raise nothing but \<^verbatim>\<open>KeyError\<close>. If two of the fields name different arguments,
  \<^verbatim>\<open>partial_format\<close> returns the string unchanged, whatever the formats supply: every
  call of \<^verbatim>\<open>format\<close> with one key meets a field of another name and raises the
  \<^verbatim>\<open>KeyError\<close> that is suppressed. More generally the string comes back unchanged
  when for every key of the formats some field has another name: a key is substituted
  only when every field of the string names it.
\<close>

theorem partial_format_unchanged:
  assumes "well_formed s"
    and "list_all is_keyword_field (replacement_fields s)"
    and "\<And>f kwargs obj exc. f \<in> set (replacement_fields s) \<Longrightarrow> render kwargs obj f = Inl exc
           \<Longrightarrow> exc_class exc = ''KeyError''"
  shows "(list_ex (\<lambda>f. list_ex (\<lambda>g. arg_name f \<noteq> arg_name g) (replacement_fields s))
            (replacement_fields s)
          \<longrightarrow> partial_format render s formats = Inr s)
       \<and> (list_all (\<lambda>(k, v). list_ex (\<lambda>f. arg_name f \<noteq> k) (replacement_fields s)) formats
          \<longrightarrow> partial_format render s formats = Inr s)"
proof (intro conjI impI)
  assume two: "list_ex (\<lambda>f. list_ex (\<lambda>g. arg_name f \<noteq> arg_name g) (replacement_fields s))
      (replacement_fields s)"
  have "list_ex (\<lambda>f. arg_name f \<noteq> k) (replacement_fields s)" for k
    using two by (rule two_names_other)
  then have "list_all (\<lambda>(k, v). list_ex (\<lambda>f. arg_name f \<noteq> k) (replacement_fields s)) formats"
    by (simp add: list_all_iff case_prod_beta)
  then show "partial_format render s formats = Inr s"
    using partial_format_KeyError_each [OF assms(1,2), of render formats] assms(3) by blast
next
  assume "list_all (\<lambda>(k, v). list_ex (\<lambda>f. arg_name f \<noteq> k) (replacement_fields s)) formats"
  then show "partial_format render s formats = Inr s"
    using partial_format_KeyError_each [OF assms(1,2), of render formats] assms(3) by blast
qed

theorem partial_format_unchanged_witness:
  "partial_format format_str_value ''{a} and {b}'' [(''a'', ''x''), (''b'', ''y'')]
     = Inr ''{a} and {b}''
   \<and> partial_format format_str_value ''{a} and {a}'' [(''b'', ''y'')]
     = Inr ''{a} and {a}''"
proof -
  let ?s = "''{a} and {b}''"
  let ?t = "''{a} and {a}''"
  have fields_s: "replacement_fields ?s
      = [\<lparr>field_name = ''a'', conversion = None, format_spec = []\<rparr>,
         \<lparr>field_name = ''b'', conversion = None, format_spec = []\<rparr>]"
    by (simp add: format_defs)
  have fields_t: "replacement_fields ?t
      = [\<lparr>field_name = ''a'', conversion = None, format_spec = []\<rparr>,
         \<lparr>field_name = ''a'', conversion = None, format_spec = []\<rparr>]"
    by (simp add: format_defs)
  have wf: "well_formed ?s" "well_formed ?t"
    by (simp_all add: format_defs)
  have kw: "list_all is_keyword_field (replacement_fields ?s)"
    "list_all is_keyword_field (replacement_fields ?t)"
    unfolding fields_s fields_t by (simp_all add: format_defs)
  have render_s: "exc_class exc = ''KeyError''"
    if "f \<in> set (replacement_fields ?s)" and "format_str_value kwargs obj f = Inl exc"
    for f and kwargs :: "string py_dict" and obj exc
    using that unfolding fields_s by (auto simp: format_defs)
  have render_t: "exc_class exc = ''KeyError''"
    if "f \<in> set (replacement_fields ?t)" and "format_str_value kwargs obj f = Inl exc"
    for f and kwargs :: "string py_dict" and obj exc
    using that unfolding fields_t by (auto simp: format_defs)
  have two: "list_ex (\<lambda>f. list_ex (\<lambda>g. arg_name f \<noteq> arg_name g) (replacement_fields ?s))
      (replacement_fields ?s)"
    unfolding fields_s by (simp add: format_defs)
  have other: "list_all (\<lambda>(k, v). list_ex (\<lambda>f. arg_name f \<noteq> k) (replacement_fields ?t))
      [(''b'', ''y'')]"
    unfolding fields_t by (simp add: format_defs)
  have unchanged_s:
    "(list_ex (\<lambda>f. list_ex (\<lambda>g. arg_name f \<noteq> arg_name g) (replacement_fields ?s))
        (replacement_fields ?s)
      \<longrightarrow> partial_format format_str_value ?s [(''a'', ''x''), (''b'', ''y'')] = Inr ?s)
     \<and> (list_all (\<lambda>(k, v). list_ex (\<lambda>f. arg_name f \<noteq> k) (replacement_fields ?s))
          [(''a'', ''x''), (''b'', ''y'')]
      \<longrightarrow> partial_format format_str_value ?s [(''a'', ''x''), (''b'', ''y'')] = Inr ?s)"
    by (rule partial_format_unchanged [OF wf(1) kw(1)]) (rule render_s, assumption+)
  have unchanged_t:
    "(list_ex (\<lambda>f. list_ex (\<lambda>g. arg_name f \<noteq> arg_name g) (replacement_fields ?t))
        (replacement_fields ?t)
      \<longrightarrow> partial_format format_str_value ?t [(''b'', ''y'')] = Inr ?t)
     \<and> (list_all (\<lambda>(k, v). list_ex (\<lambda>f. arg_name f \<noteq> k) (replacement_fields ?t))
          [(''b'', ''y'')]
      \<longrightarrow> partial_format format_str_value ?t [(''b'', ''y'')] = Inr ?t)"
    by (rule partial_format_unchanged [OF wf(2) kw(2)]) (rule render_t, assumption+)
  show ?thesis
    using unchanged_s unchanged_t two other by blast
qed

text \<open>A string whose only field names the key is formatted.\<close>

lemma partial_format_single_field:
  "partial_format format_str_value ''Hi {a}, {{{a}}}'' [(''b'', ''y''), (''a'', ''x'')]
     = Inr ''Hi x, {x}''"
  by (simp add: format_defs)

end
